theory Spec2Isabelle
  imports Complex_Main
begin

section \<open>Python strings\<close>

text \<open>
  A Python \<open>str\<close> is a sequence of code points. It is modelled as a \<open>string\<close> whose
  characters are read as the code points 0 to 255 (Latin-1), so every function below
  is the Python function restricted to texts over that range.
\<close>

text \<open>\<open>str.isspace\<close> on one code point below 256.\<close>

definition isspace :: "char \<Rightarrow> bool" where
  "isspace c =
     (let n = (of_char c :: nat)
      in (9 \<le> n \<and> n \<le> 13) \<or> (28 \<le> n \<and> n \<le> 32) \<or> n = 133 \<or> n = 160)"



text \<open>
  \<open>str.lower\<close> on one code point below 256: A to Z and the Latin-1 capitals U+00C0 to
  U+00DE (the multiplication sign U+00D7 apart) move up by 32.
\<close>

definition lower_char :: "char \<Rightarrow> char" where
  "lower_char c =
     (let n = (of_char c :: nat)
      in if (65 \<le> n \<and> n \<le> 90) \<or> (192 \<le> n \<and> n \<le> 222 \<and> n \<noteq> 215)
         then char_of (n + 32) else c)"

definition lower :: "string \<Rightarrow> string" where
  "lower s = map lower_char s"

text \<open>\<open>s.replace(old, new)\<close> for one-character \<open>old\<close> and \<open>new\<close>.\<close>

definition replace_char :: "char \<Rightarrow> char \<Rightarrow> string \<Rightarrow> string" where
  "replace_char old new s = map (\<lambda>c. if c = old then new else c) s"


text \<open>
  \<open>s.split()\<close> without a separator: the maximal runs of non-whitespace characters,
  scanned left to right; \<open>cur\<close> holds the current run, reversed.
\<close>

fun split_ws_scan :: "string \<Rightarrow> string \<Rightarrow> string list" where
  "split_ws_scan cur [] = (if cur = [] then [] else [rev cur])"
| "split_ws_scan cur (c # cs) =
     (if isspace c
      then (if cur = [] then split_ws_scan [] cs else rev cur # split_ws_scan [] cs)
      else split_ws_scan (c # cur) cs)"

definition split_ws :: "string \<Rightarrow> string list" where
  "split_ws s = split_ws_scan [] s"

text \<open>
  \<open>s.split(sep)\<close> with a separator: cut at every occurrence of \<open>sep\<close>, left to right,
  keeping empty pieces. Python raises \<open>ValueError\<close> on an empty separator; both call
  sites pass a literal, and the model returns the unsplit string there.
\<close>

function split_sep_scan :: "string \<Rightarrow> string \<Rightarrow> string \<Rightarrow> string list" where
  "split_sep_scan sep cur [] = [rev cur]"
| "split_sep_scan sep cur (c # cs) =
     (if sep \<noteq> [] \<and> take (length sep) (c # cs) = sep
      then rev cur # split_sep_scan sep [] (drop (length sep) (c # cs))
      else split_sep_scan sep (c # cur) cs)"
  by pat_completeness auto
termination
  by (relation "measure (\<lambda>(sep, cur, s). length s)") auto


text \<open>\<open>sep.join(xs)\<close>.\<close>

fun join :: "string \<Rightarrow> string list \<Rightarrow> string" where
  "join sep [] = []"
| "join sep [x] = x"
| "join sep (x # y # ys) = x @ sep @ join sep (y # ys)"

text \<open>
  \<open>xs[i:j]\<close> for integers \<open>i\<close> and \<open>j\<close>: a negative index counts from the end, and
  both ends are clamped to the list.
\<close>

definition slice :: "'a list \<Rightarrow> int \<Rightarrow> int \<Rightarrow> 'a list" where
  "slice xs i j =
     (let n = int (length xs);
          lo = (if i < 0 then max (i + n) 0 else min i n);
          hi = (if j < 0 then max (j + n) 0 else min j n)
      in take (nat (hi - lo)) (drop (nat lo) xs))"

section \<open>Exceptions\<close>

text \<open>
  The exceptions the modelled code meets, all of them subclasses of Python's
  \<open>Exception\<close>: \<open>ValueError\<close> with its message, and \<open>StorageError\<close> for whatever the
  storage library or the file system raises.
\<close>

datatype exn = ValueError string | StorageError string

section \<open>utils/text\_utils.py: split\_into\_chunks\<close>

text \<open>\<open>range(start, stop, step)\<close> as the list it iterates over.\<close>

function range_up :: "int \<Rightarrow> int \<Rightarrow> int \<Rightarrow> int list" where
  "range_up i stop step =
     (if 0 < step \<and> i < stop then i # range_up (i + step) stop step else [])"
  by pat_completeness auto
termination
  by (relation "measure (\<lambda>(i, stop, step). nat (stop - i))") auto

function range_down :: "int \<Rightarrow> int \<Rightarrow> int \<Rightarrow> int list" where
  "range_down i stop step =
     (if step < 0 \<and> stop < i then i # range_down (i + step) stop step else [])"
  by pat_completeness auto
termination
  by (relation "measure (\<lambda>(i, stop, step). nat (i - stop))") auto

definition py_range :: "int \<Rightarrow> int \<Rightarrow> int \<Rightarrow> exn + int list" where
  "py_range start stop step =
     (if step = 0 then Inl (ValueError ''range() arg 3 must not be zero'')
      else if 0 < step then Inr (range_up start stop step)
      else Inr (range_down start stop step))"

definition split_into_chunks :: "string \<Rightarrow> int \<Rightarrow> int \<Rightarrow> exn + string list" where
  "split_into_chunks text chunk_size overlap =
     (if chunk_size \<le> 0 then Inl (ValueError ''chunk_size must be positive'')
      else if overlap < 0 \<or> overlap \<ge> chunk_size
      then Inl (ValueError ''overlap must be non-negative and less than chunk_size'')
      else
        let words = split_ws text
        in case py_range 0 (int (length words)) (chunk_size - overlap) of
             Inl e \<Rightarrow> Inl e
           | Inr offsets \<Rightarrow>
               Inr (map (\<lambda>i. join '' '' (slice words i (i + chunk_size))) offsets))"

declare range_up.simps [simp del] range_down.simps [simp del] split_sep_scan.simps [simp del]

text \<open>
  A token is what \<open>split_ws\<close> produces: a non-empty string without whitespace. The
  tokens of a chunk are read back from the chunk with \<open>split_ws\<close>.
\<close>

definition is_token :: "string \<Rightarrow> bool" where
  "is_token t = (t \<noteq> [] \<and> (\<forall>c\<in>set t. \<not> isspace c))"

text \<open>
  Two consecutive chunks share \<open>ov\<close> tokens at their boundary: both have at least
  \<open>ov\<close> tokens, and the last \<open>ov\<close> tokens of the first are the first \<open>ov\<close> tokens of
  the second.
\<close>

definition shares_boundary :: "nat \<Rightarrow> string \<Rightarrow> string \<Rightarrow> bool" where
  "shares_boundary ov c1 c2 =
     (let t1 = split_ws c1; t2 = split_ws c2
      in ov \<le> length t1 \<and> ov \<le> length t2 \<and> drop (length t1 - ov) t1 = take ov t2)"

section \<open>Exceptions and state as values\<close>

text \<open>
  A method that can raise and that reads or writes the store is a function from the
  state to a result and the new state; \<open>Inl e\<close> is the exception \<open>e\<close> leaving the
  method.
\<close>

type_synonym ('a, 'st) prog = "'st \<Rightarrow> (exn + 'a) \<times> 'st"

definition py_return :: "'a \<Rightarrow> ('a, 'st) prog" where
  "py_return x = (\<lambda>s. (Inr x, s))"

text \<open>Sequencing: an exception in the first statement skips the rest.\<close>

definition py_bind :: "('a, 'st) prog \<Rightarrow> ('a \<Rightarrow> ('b, 'st) prog) \<Rightarrow> ('b, 'st) prog" where
  "py_bind m f = (\<lambda>s. case m s of (Inl e, s') \<Rightarrow> (Inl e, s') | (Inr x, s') \<Rightarrow> f x s')"

text \<open>
  \<open>try: m except Exception: h\<close>. Every value of \<open>exn\<close> is an instance of
  \<open>Exception\<close>, so the handler takes them all.
\<close>

definition py_try :: "('a, 'st) prog \<Rightarrow> (exn \<Rightarrow> ('a, 'st) prog) \<Rightarrow> ('a, 'st) prog" where
  "py_try m h = (\<lambda>s. case m s of (Inl e, s') \<Rightarrow> h e s' | (Inr x, s') \<Rightarrow> (Inr x, s'))"

section \<open>config.py: Settings\<close>

record Settings =
  chroma_persist_directory :: string
  chunk_size :: int
  chunk_overlap :: int
  retrieval_top_k :: int
  persona_directory :: string

definition default_settings :: Settings where
  "default_settings =
     \<lparr>chroma_persist_directory = ''data/chroma_db'', chunk_size = 1000, chunk_overlap = 200,
      retrieval_top_k = 5, persona_directory = ''data/personas''\<rparr>"

text \<open>
  A path is the string \<open>str(path)\<close>; \<open>p / name\<close> appends one component. Two paths
  are the same place exactly when the strings are equal.
\<close>

definition path_join :: "string \<Rightarrow> string \<Rightarrow> string" where
  "path_join p name = p @ ''/'' @ name"

definition get_chroma_path :: "Settings \<Rightarrow> string" where
  "get_chroma_path st = chroma_persist_directory st"

definition get_persona_path :: "Settings \<Rightarrow> string" where
  "get_persona_path st = persona_directory st"

section \<open>The storage library and the file system\<close>

text \<open>A metadata value: the code stores strings and the integer \<open>chunk_id\<close>.\<close>

datatype meta_value = MStr string | MInt int

text \<open>A stored document (langchain's \<open>Document\<close>).\<close>

record Document =
  page_content :: string
  metadata :: "(string \<times> meta_value) list"

text \<open>
  The operations of chromadb, langchain and \<open>pathlib\<close> that \<open>rag.py\<close> calls, over a
  store of type \<open>'s\<close>; \<open>'c\<close> is the type of a similarity score. A database is
  addressed by the path its client was opened on, a collection by that path and a
  name. Each operation returns its result or the exception it raised, and the store
  after it.
\<close>

record ('s, 'c) backend =
  PersistentClient :: "string \<Rightarrow> (unit, 's) prog"
  SentenceTransformerEmbeddings :: "(unit, 's) prog"
  Chroma :: "string \<Rightarrow> string \<Rightarrow> (unit, 's) prog"
  add_texts :: "string \<Rightarrow> string \<Rightarrow> string list \<Rightarrow> (string \<times> meta_value) list list \<Rightarrow> (unit, 's) prog"
  similarity_search_with_score :: "string \<Rightarrow> string \<Rightarrow> string \<Rightarrow> int \<Rightarrow> ((Document \<times> 'c) list, 's) prog"
  collection_count :: "string \<Rightarrow> string \<Rightarrow> (int, 's) prog"
  delete_collection :: "string \<Rightarrow> string \<Rightarrow> (unit, 's) prog"
  list_collections :: "string \<Rightarrow> (string list, 's) prog"
  path_exists :: "string \<Rightarrow> (bool, 's) prog"
  path_unlink :: "string \<Rightarrow> (unit, 's) prog"
  split_text :: "int \<Rightarrow> int \<Rightarrow> string \<Rightarrow> exn + string list"


section \<open>core/rag.py: RAGPipeline\<close>

text \<open>The vector store object: the client's path and the collection it wraps.\<close>

record Vectorstore =
  vs_client_path :: string
  vs_collection_name :: string

text \<open>
  The fields of a \<open>RAGPipeline\<close>; \<open>self_vectorstore\<close> is \<open>None\<close> until the store is
  first used, \<open>self_embeddings\<close> tells whether the embedding model is loaded.
\<close>

record RAGPipeline =
  self_persona_name :: string
  self_collection_name :: string
  self_vectorstore :: "Vectorstore option"
  self_embeddings :: bool

text \<open>
  \<open>__init__\<close>: \<open>collection_name or f"persona_{persona_name.replace(' ', '_').lower()}"\<close>;
  \<open>None\<close> and the empty string both fall through to the derived name.
\<close>

definition RAGPipeline_init :: "string \<Rightarrow> string option \<Rightarrow> RAGPipeline" where
  "RAGPipeline_init persona_name collection_name =
     \<lparr>self_persona_name = persona_name,
      self_collection_name =
        (case collection_name of
           Some name \<Rightarrow>
             if name \<noteq> [] then name
             else ''persona_'' @ lower (replace_char CHR '' '' CHR ''_'' persona_name)
         | None \<Rightarrow> ''persona_'' @ lower (replace_char CHR '' '' CHR ''_'' persona_name)),
      self_vectorstore = None,
      self_embeddings = False\<rparr>"

text \<open>A library call inside a method leaves the pipeline object as it is.\<close>

definition lift :: "('a, 's) prog \<Rightarrow> ('a, RAGPipeline \<times> 's) prog" where
  "lift m = (\<lambda>(self, s). case m s of (res, s') \<Rightarrow> (res, (self, s')))"

text \<open>The \<open>embeddings\<close> property: load the model once.\<close>

definition embeddings :: "('s, 'c) backend \<Rightarrow> (unit, RAGPipeline \<times> 's) prog" where
  "embeddings B =
     (\<lambda>(self, s).
        if self_embeddings self then (Inr (), (self, s))
        else case SentenceTransformerEmbeddings B s of
               (Inl e, s') \<Rightarrow> (Inl e, (self, s'))
             | (Inr u, s') \<Rightarrow> (Inr (), (self\<lparr>self_embeddings := True\<rparr>, s')))"

text \<open>
  \<open>_create_vectorstore\<close>: a client on \<open>chroma_path / collection_name\<close>, then the
  embeddings, then the collection of that name in that client's database.
\<close>

definition create_vectorstore ::
  "('s, 'c) backend \<Rightarrow> Settings \<Rightarrow> (Vectorstore, RAGPipeline \<times> 's) prog" where
  "create_vectorstore B st =
     (\<lambda>(self, s).
        let persist_dir = path_join (get_chroma_path st) (self_collection_name self)
        in py_bind (lift (PersistentClient B persist_dir)) (\<lambda>client.
           py_bind (embeddings B) (\<lambda>embedding_function.
           py_bind (lift (Chroma B persist_dir (self_collection_name self))) (\<lambda>store.
           py_return \<lparr>vs_client_path = persist_dir,
                      vs_collection_name = self_collection_name self\<rparr>)))
             (self, s))"

text \<open>The \<open>vectorstore\<close> property: create the store on first use and keep it.\<close>

definition vectorstore ::
  "('s, 'c) backend \<Rightarrow> Settings \<Rightarrow> (Vectorstore, RAGPipeline \<times> 's) prog" where
  "vectorstore B st =
     (\<lambda>(self, s).
        case self_vectorstore self of
          Some vs \<Rightarrow> (Inr vs, (self, s))
        | None \<Rightarrow>
            py_bind (create_vectorstore B st)
              (\<lambda>vs (self', s'). (Inr vs, (self'\<lparr>self_vectorstore := Some vs\<rparr>, s')))
              (self, s))"

definition add_text ::
  "('s, 'c) backend \<Rightarrow> Settings \<Rightarrow> string \<Rightarrow> string \<Rightarrow> (int, RAGPipeline \<times> 's) prog" where
  "add_text B st txt source =
     (\<lambda>(self, s).
        case split_text B (chunk_size st) (chunk_overlap st) txt of
          Inl e \<Rightarrow> (Inl e, (self, s))
        | Inr chunks \<Rightarrow>
            let metadatas =
                  map (\<lambda>i. [(''source'', MStr source), (''chunk_id'', MInt (int i)),
                             (''persona'', MStr (self_persona_name self))])
                      [0..<length chunks]
            in py_bind (vectorstore B st) (\<lambda>vs.
               py_bind (lift (add_texts B (vs_client_path vs) (vs_collection_name vs)
                                chunks metadatas)) (\<lambda>u.
               py_return (int (length chunks))))
                 (self, s))"

text \<open>One entry of the list \<open>similarity_search\<close> returns.\<close>

record 'c search_result =
  content :: string
  result_metadata :: "(string \<times> meta_value) list"
  score :: 'c

definition similarity_search ::
  "('s, 'c) backend \<Rightarrow> Settings \<Rightarrow> string \<Rightarrow> int option
     \<Rightarrow> ('c search_result list, RAGPipeline \<times> 's) prog" where
  "similarity_search B st query k =
     (let k' = (case k of
                  None \<Rightarrow> retrieval_top_k st
                | Some k \<Rightarrow> if k = 0 then retrieval_top_k st else k)
      in py_bind (vectorstore B st) (\<lambda>vs.
         py_bind (lift (similarity_search_with_score B (vs_client_path vs)
                          (vs_collection_name vs) query k')) (\<lambda>docs.
         py_return
           (map (\<lambda>(doc, score).
                   \<lparr>content = page_content doc, result_metadata = metadata doc,
                    score = score\<rparr>)
                docs))))"

text \<open>\<open>str(n)\<close> for an integer, used where an f-string formats a metadata value.\<close>

fun str_nat :: "nat \<Rightarrow> string" where
  "str_nat n =
     (if n < 10 then [char_of (48 + n)]
      else str_nat (n div 10) @ [char_of (48 + n mod 10)])"

definition str_int :: "int \<Rightarrow> string" where
  "str_int i = (if i < 0 then ''-'' @ str_nat (nat (- i)) else str_nat (nat i))"

fun format_value :: "meta_value \<Rightarrow> string" where
  "format_value (MStr v) = v"
| "format_value (MInt i) = str_int i"

text \<open>\<open>d.get(key, default)\<close>.\<close>

definition dict_get :: "('k \<times> 'v) list \<Rightarrow> 'k \<Rightarrow> 'v \<Rightarrow> 'v" where
  "dict_get d key dflt = (case map_of d key of Some v \<Rightarrow> v | None \<Rightarrow> dflt)"

definition get_relevant_context ::
  "('s, 'c) backend \<Rightarrow> Settings \<Rightarrow> string \<Rightarrow> int option \<Rightarrow> (string, RAGPipeline \<times> 's) prog" where
  "get_relevant_context B st query k =
     py_bind (similarity_search B st query k) (\<lambda>results.
       if results = [] then py_return ''No relevant context found.''
       else
         let context_parts =
               map (\<lambda>r. ''[Source: ''
                         @ format_value (dict_get (result_metadata r) ''source'' (MStr ''unknown''))
                         @ '']\<newline>'' @ content r)
                   results
         in py_return (join ''\<newline>\<newline>---\<newline>\<newline>'' context_parts))"

record collection_stats =
  stats_persona :: string
  stats_collection_name :: string
  document_count :: int

definition get_collection_stats ::
  "('s, 'c) backend \<Rightarrow> Settings \<Rightarrow> (collection_stats, RAGPipeline \<times> 's) prog" where
  "get_collection_stats B st =
     py_try
       (py_bind (vectorstore B st) (\<lambda>vs.
        py_bind (lift (collection_count B (vs_client_path vs) (vs_collection_name vs))) (\<lambda>count.
        (\<lambda>(self, s).
           (Inr \<lparr>stats_persona = self_persona_name self,
                 stats_collection_name = self_collection_name self,
                 document_count = count\<rparr>, (self, s))))))
       (\<lambda>e (self, s).
          (Inr \<lparr>stats_persona = self_persona_name self,
                stats_collection_name = self_collection_name self,
                document_count = 0\<rparr>, (self, s)))"

section \<open>core/rag.py: PersonaKnowledgeBase\<close>

text \<open>The local \<open>collection_name\<close> of \<open>delete_persona\<close> and of \<open>persona_exists\<close>.\<close>

definition delete_persona_collection_name :: "string \<Rightarrow> string" where
  "delete_persona_collection_name persona_name =
     ''persona_'' @ lower (replace_char CHR '' '' CHR ''_'' persona_name)"

definition persona_exists_collection_name :: "string \<Rightarrow> string" where
  "persona_exists_collection_name persona_name =
     ''persona_'' @ lower (replace_char CHR '' '' CHR ''_'' persona_name)"

definition delete_persona :: "('s, 'c) backend \<Rightarrow> Settings \<Rightarrow> string \<Rightarrow> (bool, 's) prog" where
  "delete_persona B st persona_name =
     (let collection_name = delete_persona_collection_name persona_name
      in py_try
           (py_bind (PersistentClient B (get_chroma_path st)) (\<lambda>client.
            py_bind (delete_collection B (get_chroma_path st) collection_name) (\<lambda>u.
            let persona_dir =
                  path_join (get_persona_path st)
                    (replace_char CHR '' '' CHR ''_'' persona_name @ ''.json'')
            in py_bind (path_exists B persona_dir) (\<lambda>ex.
               if ex then py_bind (path_unlink B persona_dir) (\<lambda>u. py_return True)
               else py_return True))))
           (\<lambda>e. py_return False))"

definition persona_exists :: "('s, 'c) backend \<Rightarrow> Settings \<Rightarrow> string \<Rightarrow> (bool, 's) prog" where
  "persona_exists B st persona_name =
     (let collection_name = persona_exists_collection_name persona_name
      in py_try
           (py_bind (PersistentClient B (get_chroma_path st)) (\<lambda>client.
            py_bind (list_collections B (get_chroma_path st)) (\<lambda>collections.
            py_return (collection_name \<in> set collections))))
           (\<lambda>e. py_return False))"


section \<open>A reference model of the storage library\<close>

text \<open>
  The documented behaviour of chromadb's persistent client, of langchain's \<open>Chroma\<close>
  wrapper and of \<open>pathlib\<close>, with no failure other than the ones they raise by
  contract. A store holds one database per client path, each a dictionary from
  collection names to the documents added, in insertion order, and the set of
  files. Opening a client on a path creates the database there if there is none;
  the wrapper gets or creates its collection; deleting a collection that does not
  exist raises \<open>ValueError\<close>; a query returns the \<open>k\<close> documents nearest to the
  query, nearest first, ties in insertion order. The distance between a query and
  a text (the embedding model) and the text splitter are parameters.
\<close>

fun dict_set :: "'k \<Rightarrow> 'v \<Rightarrow> ('k \<times> 'v) list \<Rightarrow> ('k \<times> 'v) list" where
  "dict_set key v [] = [(key, v)]"
| "dict_set key v ((key', v') # kvs) =
     (if key = key' then (key, v) # kvs else (key', v') # dict_set key v kvs)"

definition dict_del :: "'k \<Rightarrow> ('k \<times> 'v) list \<Rightarrow> ('k \<times> 'v) list" where
  "dict_del key kvs = filter (\<lambda>kv. fst kv \<noteq> key) kvs"

record store =
  dbs :: "(string \<times> (string \<times> Document list) list) list"
  files :: "string list"

definition empty_store :: store where
  "empty_store = \<lparr>dbs = [], files = []\<rparr>"

definition database :: "store \<Rightarrow> string \<Rightarrow> (string \<times> Document list) list" where
  "database s path = dict_get (dbs s) path []"

definition chroma ::
  "(string \<Rightarrow> string \<Rightarrow> 'c::linorder) \<Rightarrow> (int \<Rightarrow> int \<Rightarrow> string \<Rightarrow> exn + string list)
     \<Rightarrow> (store, 'c) backend" where
  "chroma distance splitter =
     \<lparr>PersistentClient =
        (\<lambda>path s. (Inr (), if map_of (dbs s) path = None
                            then s\<lparr>dbs := dict_set path [] (dbs s)\<rparr> else s)),
      SentenceTransformerEmbeddings = py_return (),
      Chroma =
        (\<lambda>path name s.
           (Inr (), if map_of (database s path) name = None
                    then s\<lparr>dbs := dict_set path (dict_set name [] (database s path)) (dbs s)\<rparr>
                    else s)),
      add_texts =
        (\<lambda>path name texts metadatas s.
           (Inr (),
            s\<lparr>dbs := dict_set path
                       (dict_set name
                          (dict_get (database s path) name []
                             @ map (\<lambda>(t, m). \<lparr>page_content = t, metadata = m\<rparr>)
                                   (zip texts metadatas))
                          (database s path))
                       (dbs s)\<rparr>)),
      similarity_search_with_score =
        (\<lambda>path name query k s.
           if k \<le> 0 then (Inl (ValueError ''Number of requested results must be positive''), s)
           else case map_of (database s path) name of
                  None \<Rightarrow> (Inl (ValueError ''Collection does not exist''), s)
                | Some docs \<Rightarrow>
                    (Inr (take (nat k)
                            (sort_key snd (map (\<lambda>d. (d, distance query (page_content d))) docs))),
                     s)),
      collection_count =
        (\<lambda>path name s.
           case map_of (database s path) name of
             None \<Rightarrow> (Inl (ValueError ''Collection does not exist''), s)
           | Some docs \<Rightarrow> (Inr (int (length docs)), s)),
      delete_collection =
        (\<lambda>path name s.
           if map_of (database s path) name = None
           then (Inl (ValueError ''Collection does not exist''), s)
           else (Inr (), s\<lparr>dbs := dict_set path (dict_del name (database s path)) (dbs s)\<rparr>)),
      list_collections = (\<lambda>path s. (Inr (map fst (database s path)), s)),
      path_exists = (\<lambda>p s. (Inr (p \<in> set (files s)), s)),
      path_unlink =
        (\<lambda>p s. if p \<in> set (files s) then (Inr (), s\<lparr>files := removeAll p (files s)\<rparr>)
                else (Inl (StorageError ''No such file or directory''), s)),
      split_text = splitter\<rparr>"

text \<open>
  One instance for evaluation: the distance between a query and a text is the
  difference of their lengths, and the splitter returns a non-empty text as one chunk.
\<close>

definition length_distance :: "string \<Rightarrow> string \<Rightarrow> nat" where
  "length_distance query txt = nat \<bar>int (length query) - int (length txt)\<bar>"

definition whole_text_splitter :: "int \<Rightarrow> int \<Rightarrow> string \<Rightarrow> exn + string list" where
  "whole_text_splitter csize coverlap txt = (if txt = [] then Inr [] else Inr [txt])"

definition reference_backend :: "(store, nat) backend" where
  "reference_backend = chroma length_distance whole_text_splitter"

text \<open>A backend whose similarity query fails with a storage error.\<close>

definition failing_search :: "('s, 'c) backend \<Rightarrow> ('s, 'c) backend" where
  "failing_search B =
     B\<lparr>similarity_search_with_score :=
         (\<lambda>path name query k s. (Inl (StorageError ''database is locked''), s))\<rparr>"

section \<open>core/transcript.py: \_parse\_srt\_subtitles\<close>







section \<open>Properties of the string functions and the chunker\<close>

lemma isspace_space [simp]: "isspace CHR '' ''"
  by (simp add: isspace_def)

lemma split_ws_scan_tokens:
  assumes "\<forall>c\<in>set cur. \<not> isspace c" and "t \<in> set (split_ws_scan cur s)"
  shows "is_token t"
  using assms
proof (induction cur s rule: split_ws_scan.induct)
  case (1 cur)
  then show ?case by (cases "cur = []") (simp_all add: is_token_def)
next
  case (2 cur c cs)
  show ?case
  proof (cases "isspace c")
    case sp: True
    show ?thesis
    proof (cases "cur = []")
      case True
      with sp "2.prems" have "t \<in> set (split_ws_scan [] cs)" by simp
      with "2.IH"(1) [OF sp True] show ?thesis by simp
    next
      case False
      with sp "2.prems" have "t = rev cur \<or> t \<in> set (split_ws_scan [] cs)" by simp
      then show ?thesis
      proof
        assume "t = rev cur"
        with False "2.prems"(1) show ?thesis by (simp add: is_token_def)
      next
        assume "t \<in> set (split_ws_scan [] cs)"
        with "2.IH"(2) [OF sp False] show ?thesis by simp
      qed
    qed
  next
    case False
    with "2.prems" have "t \<in> set (split_ws_scan (c # cur) cs)" by simp
    moreover have "\<forall>c'\<in>set (c # cur). \<not> isspace c'" using False "2.prems"(1) by simp
    ultimately show ?thesis using "2.IH"(3) [OF False] by blast
  qed
qed

lemma split_ws_tokens: "t \<in> set (split_ws s) \<Longrightarrow> is_token t"
  by (rule split_ws_scan_tokens [of "[]" t s]) (simp_all add: split_ws_def)

lemma split_ws_scan_concat:
  "concat (split_ws_scan cur s) = rev cur @ filter (\<lambda>c. \<not> isspace c) s"
  by (induction cur s rule: split_ws_scan.induct) auto

lemma split_ws_concat: "concat (split_ws s) = filter (\<lambda>c. \<not> isspace c) s"
  by (simp add: split_ws_def split_ws_scan_concat)

lemma split_ws_scan_run:
  "\<forall>c\<in>set t. \<not> isspace c \<Longrightarrow> split_ws_scan cur (t @ rest) = split_ws_scan (rev t @ cur) rest"
  by (induction t arbitrary: cur) auto

lemma split_ws_join:
  "\<forall>t\<in>set ts. is_token t \<Longrightarrow> split_ws (join '' '' ts) = ts"
proof (induction "'' ''" ts rule: join.induct)
  case 1
  then show ?case by (simp add: split_ws_def)
next
  case (2 x)
  then have "is_token x" by simp
  then show ?case
    using split_ws_scan_run [of x "[]" "[]"] by (simp add: split_ws_def is_token_def)
next
  case (3 x y ys)
  then have x: "is_token x" and ih: "split_ws (join '' '' (y # ys)) = y # ys" by simp_all
  have "split_ws_scan [] (x @ CHR '' '' # join '' '' (y # ys))
        = split_ws_scan (rev x) (CHR '' '' # join '' '' (y # ys))"
    using x split_ws_scan_run [of x "[]"] by (simp add: is_token_def)
  also have "\<dots> = x # split_ws_scan [] (join '' '' (y # ys))"
    using x by (simp add: is_token_def)
  finally show ?case using ih by (simp add: split_ws_def)
qed

lemma split_ws_join_sub:
  "split_ws (join '' '' (take n (drop m (split_ws s)))) = take n (drop m (split_ws s))"
proof (rule split_ws_join, rule ballI)
  fix t assume "t \<in> set (take n (drop m (split_ws s)))"
  then have "t \<in> set (split_ws s)" by (meson in_set_dropD in_set_takeD)
  then show "is_token t" by (rule split_ws_tokens)
qed

lemma range_up_count:
  "0 < step \<Longrightarrow> (0 < n \<longrightarrow> i + (int n - 1) * step < stop) \<Longrightarrow> stop \<le> i + int n * step
   \<Longrightarrow> range_up i stop step = map (\<lambda>k. i + int k * step) [0..<n]"
proof (induction n arbitrary: i)
  case 0
  then show ?case by (simp add: range_up.simps)
next
  case (Suc m)
  have "0 \<le> int m * step" using Suc.prems(1) by simp
  moreover have "i + int m * step < stop" using Suc.prems(2) by simp
  ultimately have lt: "i < stop" by linarith
  have ih: "range_up (i + step) stop step = map (\<lambda>k. (i + step) + int k * step) [0..<m]"
    using Suc.prems by (intro Suc.IH) (auto simp: algebra_simps)
  have "range_up i stop step = i # range_up (i + step) stop step"
    using lt Suc.prems(1) by (subst range_up.simps) simp
  also have "\<dots> = i # map (\<lambda>k. (i + step) + int k * step) [0..<m]"
    by (simp only: ih)
  also have "map (\<lambda>k. (i + step) + int k * step) [0..<m]
             = map (\<lambda>k. i + int k * step) (map Suc [0..<m])"
    by (simp add: algebra_simps)
  also have "i # map (\<lambda>k. i + int k * step) (map Suc [0..<m])
             = map (\<lambda>k. i + int k * step) [0..<Suc m]"
    by (simp only: map_Suc_upt upt_conv_Cons [of 0 "Suc m"]) simp
  finally show ?case .
qed

lemma slice_nonneg:
  "0 \<le> i \<Longrightarrow> i \<le> j \<Longrightarrow> slice xs i j = take (nat (j - i)) (drop (nat i) xs)"
  by (auto simp: slice_def Let_def min_def)

lemma ceil_div_nat:
  assumes "0 < s"
  shows "\<lceil>real N / real s\<rceil> = int ((N + s - 1) div s)"
proof (rule ceiling_unique)
  let ?q = "(N + s - 1) div s"
  have m: "?q * s + (N + s - 1) mod s = N + s - 1" by simp
  have r: "(N + s - 1) mod s < s" using assms by simp
  have up: "N \<le> ?q * s" using m r assms by linarith
  have lo: "?q * s < N + s" using m assms by linarith
  show "real N / real s \<le> of_int (int ?q)"
    using up assms by (simp add: divide_le_eq flip: of_nat_mult)
  have "real (?q * s) < real (N + s)" using lo by (simp only: of_nat_less_iff)
  then show "of_int (int ?q) - 1 < real N / real s"
    using assms by (simp add: less_divide_eq algebra_simps)
qed

lemma div_up_bounds:
  assumes "0 < (s::nat)"
  shows "N \<le> ((N + s - 1) div s) * s"
    and "0 < (N + s - 1) div s \<Longrightarrow> ((N + s - 1) div s - 1) * s < N"
proof -
  define q where "q = (N + s - 1) div s"
  have m: "q * s + (N + s - 1) mod s = N + s - 1" by (simp add: q_def)
  have r: "(N + s - 1) mod s < s" using assms by simp
  show "N \<le> q * s" using m r assms by linarith
  assume "0 < q"
  then obtain q' where q: "q = Suc q'" by (cases q) auto
  have "q * s < N + s" using m assms by linarith
  then show "(q - 1) * s < N" by (simp add: q)
qed

lemma range_up_nat:
  assumes "0 < (s::nat)"
  shows "range_up 0 (int N) (int s) = map (\<lambda>k. int (k * s)) [0..<(N + s - 1) div s]"
proof -
  define n where "n = (N + s - 1) div s"
  have up: "N \<le> n * s" unfolding n_def by (rule div_up_bounds(1) [OF assms])
  have lo: "0 < n \<Longrightarrow> (n - 1) * s < N" unfolding n_def by (rule div_up_bounds(2) [OF assms])
  have "range_up 0 (int N) (int s) = map (\<lambda>k. 0 + int k * int s) [0..<n]"
  proof (rule range_up_count)
    show "0 < int s" using assms by simp
    show "0 < n \<longrightarrow> 0 + (int n - 1) * int s < int N"
    proof
      assume p: "0 < n"
      then have "int ((n - 1) * s) < int N" using lo by (simp only: of_nat_less_iff)
      moreover have "int (n - 1) = int n - 1" using p by (simp add: of_nat_diff)
      ultimately show "0 + (int n - 1) * int s < int N" by simp
    qed
    have "int N \<le> int (n * s)" using up by (simp only: of_nat_le_iff)
    then show "int N \<le> 0 + int n * int s" by simp
  qed
  then show ?thesis by (simp add: n_def)
qed

lemma split_into_chunks_explicit:
  assumes "0 < w" "0 \<le> ov" "ov < w"
  shows "split_into_chunks text w ov =
           Inr (map (\<lambda>k. join '' '' (take (nat w) (drop (k * nat (w - ov)) (split_ws text))))
                    [0..<(length (split_ws text) + nat (w - ov) - 1) div nat (w - ov)])"
proof -
  define toks where "toks = split_ws text"
  define s where "s = nat (w - ov)"
  have s: "0 < s" and ints: "w - ov = int s" using assms by (simp_all add: s_def)
  have sl: "slice toks (int (k * s)) (int (k * s) + w) = take (nat w) (drop (k * s) toks)" for k
  proof -
    have "nat (int (k * s)) = k * s" by (rule nat_int)
    moreover have "slice toks (int (k * s)) (int (k * s) + w)
                   = take (nat w) (drop (nat (int (k * s))) toks)"
      using assms by (subst slice_nonneg) simp_all
    ultimately show ?thesis by (simp only:)
  qed
  have "split_into_chunks text w ov
        = Inr (map (\<lambda>i. join '' '' (slice toks i (i + w))) (range_up 0 (int (length toks)) (int s)))"
    using assms s by (simp add: split_into_chunks_def py_range_def Let_def toks_def ints)
  also have "\<dots> = Inr (map (\<lambda>k. join '' '' (take (nat w) (drop (k * s) toks)))
                         [0..<(length toks + s - 1) div s])"
    by (simp add: range_up_nat [OF s] sl comp_def del: of_nat_mult)
  finally show ?thesis by (simp add: toks_def s_def)
qed

lemma concat_windows:
  "concat (map (\<lambda>k. take s (drop (m + k * s) xs)) [0..<n]) = take (n * s) (drop m xs)"
proof (induction n)
  case 0
  then show ?case by simp
next
  case (Suc n)
  have "concat (map (\<lambda>k. take s (drop (m + k * s) xs)) [0..<Suc n])
        = take (n * s) (drop m xs) @ take s (drop (m + n * s) xs)"
    using Suc by simp
  also have "\<dots> = take (n * s + s) (drop m xs)"
    by (simp only: take_add drop_drop add.commute [of "n * s" m])
  also have "n * s + s = Suc n * s" by simp
  finally show ?case .
qed

lemma split_ws_scan_skip: "split_ws_scan [] s = split_ws_scan [] (dropWhile isspace s)"
  by (induction s) simp_all

lemma split_ws_scan_first:
  "cur \<noteq> [] \<or> (s \<noteq> [] \<and> \<not> isspace (hd s)) \<Longrightarrow>
   split_ws_scan cur s
     = (rev cur @ takeWhile (\<lambda>c. \<not> isspace c) s)
       # split_ws_scan [] (dropWhile (\<lambda>c. \<not> isspace c) s)"
proof (induction s arbitrary: cur)
  case Nil
  then show ?case by simp
next
  case (Cons c cs)
  show ?case
  proof (cases "isspace c")
    case True
    with Cons.prems have "cur \<noteq> []" by simp
    with True show ?thesis by simp
  next
    case False
    have "split_ws_scan (c # cur) cs
          = (rev (c # cur) @ takeWhile (\<lambda>c. \<not> isspace c) cs)
            # split_ws_scan [] (dropWhile (\<lambda>c. \<not> isspace c) cs)"
      by (rule Cons.IH) simp
    with False show ?thesis by simp
  qed
qed

lemma split_ws_unfold:
  "split_ws s =
     (case dropWhile isspace s of
        [] \<Rightarrow> []
      | c # r \<Rightarrow> takeWhile (\<lambda>x. \<not> isspace x) (c # r)
                 # split_ws (dropWhile (\<lambda>x. \<not> isspace x) (c # r)))"
proof -
  have a: "split_ws s = split_ws_scan [] (dropWhile isspace s)"
    unfolding split_ws_def by (rule split_ws_scan_skip)
  show ?thesis
  proof (cases "dropWhile isspace s")
    case Nil
    have "split_ws s = []" by (simp only: a Nil) simp
    then show ?thesis by (simp only: Nil list.case)
  next
    case (Cons c r)
    then have nsp: "\<not> isspace c" using hd_dropWhile [of isspace s] by simp
    have "split_ws_scan [] s = split_ws_scan [] (c # r)"
      using split_ws_scan_skip [of s] by (simp only: Cons)
    also have "\<dots> = (rev [] @ takeWhile (\<lambda>x. \<not> isspace x) (c # r))
                 # split_ws_scan [] (dropWhile (\<lambda>x. \<not> isspace x) (c # r))"
      using nsp by (intro split_ws_scan_first) simp
    finally have "split_ws_scan [] s = takeWhile (\<lambda>x. \<not> isspace x) (c # r)
                 # split_ws_scan [] (dropWhile (\<lambda>x. \<not> isspace x) (c # r))"
      by (simp only: rev.simps append_Nil)
    then show ?thesis by (simp only: Cons list.case split_ws_def)
  qed
qed

text \<open>
  Claim C1. For every text, every window size \<open>w > 0\<close> and every overlap with
  \<open>0 \<le> ov < w\<close>, \<open>split_into_chunks\<close> splits the text into its whitespace-delimited
  tokens and returns, for each offset \<open>k * (w - ov)\<close> below the number of tokens, the
  tokens \<open>[k * (w - ov), k * (w - ov) + w)\<close> joined by single spaces. The tokens are
  the maximal runs of non-whitespace characters: after the leading whitespace the
  first token is the longest whitespace-free prefix, and the other tokens are those
  of the rest; each is non-empty and free of whitespace, and together they are the
  text without its whitespace. The number of chunks is the ceiling of the number of
  tokens divided by \<open>w - ov\<close>, and the empty text gives no chunk.
\<close>

theorem split_into_chunks_windows:
  assumes "0 < w" "0 \<le> ov" "ov < w"
  shows "split_ws text =
           (case dropWhile isspace text of
              [] \<Rightarrow> []
            | c # r \<Rightarrow> takeWhile (\<lambda>x. \<not> isspace x) (c # r)
                       # split_ws (dropWhile (\<lambda>x. \<not> isspace x) (c # r)))
       \<and> (\<forall>t\<in>set (split_ws text). is_token t)
       \<and> concat (split_ws text) = filter (\<lambda>c. \<not> isspace c) text
       \<and> split_into_chunks text w ov =
           Inr (map (\<lambda>k. join '' '' (take (nat w) (drop (k * nat (w - ov)) (split_ws text))))
                    [0..<nat \<lceil>real (length (split_ws text)) / real_of_int (w - ov)\<rceil>])
       \<and> (\<forall>cs. split_into_chunks text w ov = Inr cs \<longrightarrow>
              int (length cs) = \<lceil>real (length (split_ws text)) / real_of_int (w - ov)\<rceil>)
       \<and> split_into_chunks [] w ov = Inr []"
proof -
  define s where "s = nat (w - ov)"
  have s: "0 < s" and ints: "w - ov = int s" using assms by (simp_all add: s_def)
  have c: "\<lceil>real N / real_of_int (w - ov)\<rceil> = int ((N + s - 1) div s)" for N
    using ceil_div_nat [OF s, of N] by (simp add: ints)
  have e: "split_into_chunks t w ov =
           Inr (map (\<lambda>k. join '' '' (take (nat w) (drop (k * s) (split_ws t))))
                    [0..<(length (split_ws t) + s - 1) div s])" for t
    unfolding s_def by (rule split_into_chunks_explicit [OF assms])
  have "split_ws text =
           (case dropWhile isspace text of
              [] \<Rightarrow> []
            | c # r \<Rightarrow> takeWhile (\<lambda>x. \<not> isspace x) (c # r)
                       # split_ws (dropWhile (\<lambda>x. \<not> isspace x) (c # r)))"
    by (rule split_ws_unfold)
  moreover have "\<forall>t\<in>set (split_ws text). is_token t" by (simp add: split_ws_tokens)
  moreover have "concat (split_ws text) = filter (\<lambda>c. \<not> isspace c) text"
    by (rule split_ws_concat)
  moreover have "split_into_chunks text w ov =
           Inr (map (\<lambda>k. join '' '' (take (nat w) (drop (k * nat (w - ov)) (split_ws text))))
                    [0..<nat \<lceil>real (length (split_ws text)) / real_of_int (w - ov)\<rceil>])"
    by (simp only: c nat_int e) (simp add: s_def)
  moreover have "\<forall>cs. split_into_chunks text w ov = Inr cs \<longrightarrow>
              int (length cs) = \<lceil>real (length (split_ws text)) / real_of_int (w - ov)\<rceil>"
    by (simp only: c e) simp
  moreover have "split_into_chunks [] w ov = Inr []"
    using s by (simp add: e split_ws_def)
  ultimately show ?thesis by blast
qed

theorem split_into_chunks_windows_witness:
  "split_ws ''  hello   world foo '' = [''hello'', ''world'', ''foo'']
   \<and> split_into_chunks ''  hello   world foo '' 2 1 = Inr [''hello world'', ''world foo'', ''foo'']
   \<and> int (length [''hello world'', ''world foo'', ''foo''])
       = \<lceil>real (length (split_ws ''  hello   world foo '')) / real_of_int (2 - 1)\<rceil>"
proof -
  have h: "(0::int) < 2" "(0::int) \<le> 1" "(1::int) < 2" by simp_all
  have t: "split_ws ''  hello   world foo '' = [''hello'', ''world'', ''foo'']"
    by code_simp
  have v: "split_into_chunks ''  hello   world foo '' 2 1
           = Inr [''hello world'', ''world foo'', ''foo'']"
    by code_simp
  from split_into_chunks_windows [OF h, of "''  hello   world foo ''"] t v
  show ?thesis by blast
qed

lemma nth_chunks:
  assumes v: "0 < w" "0 \<le> ov" "ov < w" and r: "split_into_chunks text w ov = Inr cs"
    and kl: "k < length cs"
  shows "split_ws (cs ! k) = take (nat w) (drop (k * nat (w - ov)) (split_ws text))"
    and "k * nat (w - ov) < length (split_ws text)"
proof -
  define s where "s = nat (w - ov)"
  define n where "n = (length (split_ws text) + s - 1) div s"
  have s: "0 < s" using v by (simp add: s_def)
  have cs: "cs = map (\<lambda>k. join '' '' (take (nat w) (drop (k * s) (split_ws text)))) [0..<n]"
    using split_into_chunks_explicit [OF v, of "text"] r by (simp add: s_def n_def)
  then have k: "k < n" using kl by simp
  then have "cs ! k = join '' '' (take (nat w) (drop (k * s) (split_ws text)))"
    by (simp add: cs)
  then show "split_ws (cs ! k) = take (nat w) (drop (k * nat (w - ov)) (split_ws text))"
    by (simp add: split_ws_join_sub s_def)
  have a: "(n - 1) * s < length (split_ws text)"
    unfolding n_def using k by (intro div_up_bounds(2) [OF s]) (simp add: n_def)
  have b: "k * s \<le> (n - 1) * s" using k by (intro mult_le_mono1) simp
  have "k * s < length (split_ws text)" by (rule le_less_trans [OF b a])
  then show "k * nat (w - ov) < length (split_ws text)" by (simp only: s_def)
qed


text \<open>
  Claim C2, as amended. For valid parameters every chunk has at most \<open>w\<close> tokens
  (chunk \<open>k\<close> has \<open>min w (N - k * (w - ov))\<close> of them), and two consecutive chunks
  share exactly \<open>ov\<close> tokens at their boundary whenever the earlier one is a full
  window of \<open>w\<close> tokens. Chunks that run into the end of the token sequence are
  shorter, and there can be several of them, not only the final one.
\<close>

theorem chunks_bounded_overlap:
  assumes v: "0 < w" "0 \<le> ov" "ov < w" and r: "split_into_chunks text w ov = Inr cs"
  shows "(\<forall>c\<in>set cs. length (split_ws c) \<le> nat w)
       \<and> (\<forall>k. k < length cs \<longrightarrow>
              length (split_ws (cs ! k))
                = min (nat w) (length (split_ws text) - k * nat (w - ov)))
       \<and> (\<forall>k. Suc k < length cs \<longrightarrow> length (split_ws (cs ! k)) = nat w \<longrightarrow>
              shares_boundary (nat ov) (cs ! k) (cs ! Suc k))"
proof -
  define s where "s = nat (w - ov)"
  define toks where "toks = split_ws text"
  have sw: "s + nat ov = nat w" using v by (simp add: s_def)
  have tk: "split_ws (cs ! k) = take (nat w) (drop (k * s) toks)" if "k < length cs" for k
    unfolding s_def toks_def by (rule nth_chunks(1) [OF v r that])
  have len: "length (split_ws (cs ! k)) = min (nat w) (length toks - k * s)"
    if "k < length cs" for k
    by (simp add: tk [OF that] min.commute)
  have bound: "\<forall>c\<in>set cs. length (split_ws c) \<le> nat w"
  proof
    fix c assume "c \<in> set cs"
    then obtain k where "k < length cs" and "c = cs ! k" by (auto simp: in_set_conv_nth)
    then show "length (split_ws c) \<le> nat w" by (simp add: len)
  qed
  have share: "shares_boundary (nat ov) (cs ! k) (cs ! Suc k)"
    if k: "Suc k < length cs" and full: "length (split_ws (cs ! k)) = nat w" for k
  proof -
    have k0: "k < length cs" using k by simp
    have t1: "split_ws (cs ! k) = take (nat w) (drop (k * s) toks)" by (rule tk [OF k0])
    have t2: "split_ws (cs ! Suc k) = take (nat w) (drop (Suc k * s) toks)" by (rule tk [OF k])
    have fits: "k * s + nat w \<le> length toks"
      using full len [OF k0] v by (simp add: min_def split: if_splits)
    have l2: "nat ov \<le> length (split_ws (cs ! Suc k))"
      using fits sw by (simp add: t2)
    have e1: "nat w - nat ov = s" and e2: "nat w - s = nat ov" using sw by simp_all
    have "drop s (take (nat w) (drop (k * s) toks)) = take (nat ov) (drop (s + k * s) toks)"
      by (simp only: drop_take drop_drop e2)
    then have "drop (nat w - nat ov) (split_ws (cs ! k)) = take (nat ov) (drop (s + k * s) toks)"
      by (simp only: t1 e1)
    moreover have "take (nat ov) (split_ws (cs ! Suc k)) = take (nat ov) (drop (s + k * s) toks)"
      using sw by (simp add: t2 min_def)
    ultimately show ?thesis
      using full l2 v by (simp add: shares_boundary_def Let_def)
  qed
  show ?thesis using bound len share by (simp add: toks_def s_def)
qed

theorem chunks_bounded_overlap_witness:
  "split_into_chunks ''a b c d e'' 4 3 = Inr [''a b c d'', ''b c d e'', ''c d e'', ''d e'', ''e'']
   \<and> length (split_ws ''c d e'') \<le> nat 4
   \<and> shares_boundary (nat 3) ''a b c d'' ''b c d e''"
proof -
  have h: "(0::int) < 4" "(0::int) \<le> 3" "(3::int) < 4" by simp_all
  have r: "split_into_chunks ''a b c d e'' 4 3
           = Inr [''a b c d'', ''b c d e'', ''c d e'', ''d e'', ''e'']"
    by code_simp
  have f: "length (split_ws ''a b c d'') = nat 4" by code_simp
  note t = chunks_bounded_overlap [OF h r]
  from t have "length (split_ws ''c d e'') \<le> nat 4" by simp
  moreover from t f have "shares_boundary (nat 3) ''a b c d'' ''b c d e''" by force
  ultimately show ?thesis using r by simp
qed

text \<open>
  The claim as stated fails: with five tokens, a window of 4 and an overlap of 3
  the third and fourth chunks, neither of them the final one, share two tokens.
\<close>

theorem chunks_overlap_counterexample:
  "split_into_chunks ''a b c d e'' 4 3 = Inr [''a b c d'', ''b c d e'', ''c d e'', ''d e'', ''e'']
   \<and> \<not> shares_boundary 3 ''c d e'' ''d e''"
  by code_simp

text \<open>
  Claim C3. Chunking is exhaustive: for valid parameters, the first \<open>w - ov\<close> tokens
  of each chunk (its span before the next chunk starts), concatenated in order, are
  the token sequence of the text, with no token lost or repeated. So are the first
  chunk followed by every later chunk without its first \<open>ov\<close> tokens.
\<close>

theorem chunks_exhaustive:
  assumes v: "0 < w" "0 \<le> ov" "ov < w" and r: "split_into_chunks text w ov = Inr cs"
  shows "concat (map (\<lambda>c. take (nat (w - ov)) (split_ws c)) cs) = split_ws text
       \<and> (case cs of [] \<Rightarrow> []
           | c # rest \<Rightarrow> split_ws c @ concat (map (\<lambda>c. drop (nat ov) (split_ws c)) rest))
          = split_ws text"
proof -
  define s where "s = nat (w - ov)"
  define toks where "toks = split_ws text"
  define n where "n = (length toks + s - 1) div s"
  define f where "f = (\<lambda>k. join '' '' (take (nat w) (drop (k * s) toks)))"
  have s: "0 < s" and sw: "s + nat ov = nat w" using v by (simp_all add: s_def)
  have cs: "cs = map f [0..<n]"
    using split_into_chunks_explicit [OF v, of "text"] r
    by (simp add: s_def n_def toks_def f_def)
  have tf: "split_ws (f k) = take (nat w) (drop (k * s) toks)" for k
    unfolding f_def toks_def by (rule split_ws_join_sub)
  have cover: "length toks \<le> n * s"
    unfolding n_def by (rule div_up_bounds(1) [OF s])
  have first: "concat (map (\<lambda>c. take s (split_ws c)) cs) = toks"
  proof -
    have "take s (split_ws (f k)) = take s (drop (0 + k * s) toks)" for k
      using sw by (simp add: tf min_def)
    then have "concat (map (\<lambda>c. take s (split_ws c)) cs)
               = concat (map (\<lambda>k. take s (drop (0 + k * s) toks)) [0..<n])"
      by (simp add: cs comp_def)
    also have "\<dots> = take (n * s) (drop 0 toks)" by (rule concat_windows)
    also have "\<dots> = toks" using cover by simp
    finally show ?thesis .
  qed
  have second: "(case cs of [] \<Rightarrow> []
           | c # rest \<Rightarrow> split_ws c @ concat (map (\<lambda>c. drop (nat ov) (split_ws c)) rest))
          = toks"
  proof (cases n)
    case 0
    then show ?thesis using cover by (simp add: cs)
  next
    case (Suc n')
    have e: "nat w - nat ov = s" using sw by simp
    have step: "drop (nat ov) (split_ws (f (Suc k))) = take s (drop (nat w + k * s) toks)" for k
    proof -
      have "nat ov + Suc k * s = nat w + k * s" using sw by simp
      then show ?thesis by (simp only: tf drop_take drop_drop e)
    qed
    have "cs = f 0 # map (\<lambda>k. f (Suc k)) [0..<n']"
      by (simp only: cs Suc upt_conv_Cons [of 0 "Suc n'"] map_Suc_upt [symmetric])
         (simp add: comp_def)
    then have "(case cs of [] \<Rightarrow> []
           | c # rest \<Rightarrow> split_ws c @ concat (map (\<lambda>c. drop (nat ov) (split_ws c)) rest))
          = split_ws (f 0)
            @ concat (map (\<lambda>k. drop (nat ov) (split_ws (f (Suc k)))) [0..<n'])"
      by (simp add: comp_def)
    also have "\<dots> = take (nat w) toks
                      @ concat (map (\<lambda>k. take s (drop (nat w + k * s) toks)) [0..<n'])"
      by (simp only: step) (simp add: tf)
    also have "\<dots> = take (nat w) toks @ take (n' * s) (drop (nat w) toks)"
      by (simp only: concat_windows)
    also have "\<dots> = take (nat w + n' * s) toks" by (simp only: take_add)
    also have "\<dots> = toks" using cover sw Suc by simp
    finally show ?thesis .
  qed
  show ?thesis using first second by (simp add: toks_def s_def)
qed

theorem chunks_exhaustive_witness:
  "concat [take 1 (split_ws ''a b c d''), take 1 (split_ws ''b c d e''),
           take 1 (split_ws ''c d e''), take 1 (split_ws ''d e''), take 1 (split_ws ''e'')]
     = split_ws ''a b c d e''"
proof -
  have h: "(0::int) < 4" "(0::int) \<le> 3" "(3::int) < 4" by simp_all
  have r: "split_into_chunks ''a b c d e'' 4 3
           = Inr [''a b c d'', ''b c d e'', ''c d e'', ''d e'', ''e'']"
    by code_simp
  from chunks_exhaustive [OF h r] show ?thesis by simp
qed

text \<open>
  Claim C4. \<open>split_into_chunks\<close> raises exactly when \<open>chunk_size \<le> 0\<close> or
  \<open>overlap < 0\<close> or \<open>overlap \<ge> chunk_size\<close>, the exception reaches the caller as the
  result, and it is the \<open>ValueError\<close> of the two guards (the error the specification
  names \<open>InvalidChunkParameters\<close>); with valid parameters it returns a list.
\<close>

theorem split_into_chunks_raises_iff:
  "(isl (split_into_chunks text w ov) \<longleftrightarrow> (w \<le> 0 \<or> ov < 0 \<or> w \<le> ov))
   \<and> (\<forall>e. split_into_chunks text w ov = Inl e \<longrightarrow> (\<exists>m. e = ValueError m))"
  by (simp add: split_into_chunks_def py_range_def Let_def)

theorem split_into_chunks_raises_iff_witness:
  "isl (split_into_chunks ''a b'' 0 0) \<and> isl (split_into_chunks ''a b'' 2 (- 1))
   \<and> isl (split_into_chunks ''a b'' 2 2) \<and> \<not> isl (split_into_chunks ''a b'' 2 1)"
  using split_into_chunks_raises_iff [of "''a b''" 0 0]
        split_into_chunks_raises_iff [of "''a b''" 2 "- 1"]
        split_into_chunks_raises_iff [of "''a b''" 2 2]
        split_into_chunks_raises_iff [of "''a b''" 2 1]
  by simp

section \<open>Properties of the knowledge base and the caption parser\<close>

lemma lower_char_code:
  "(of_char (lower_char c) :: nat) =
     (if (65 \<le> (of_char c :: nat) \<and> (of_char c :: nat) \<le> 90)
         \<or> (192 \<le> (of_char c :: nat) \<and> (of_char c :: nat) \<le> 222 \<and> (of_char c :: nat) \<noteq> 215)
      then of_char c + 32 else of_char c)"
proof -
  define m where "m = (of_char c :: nat)"
  define up where "up = ((65 \<le> m \<and> m \<le> 90) \<or> (192 \<le> m \<and> m \<le> 222 \<and> m \<noteq> 215))"
  have l: "lower_char c = (if up then char_of (m + 32) else c)"
    unfolding lower_char_def Let_def up_def m_def by (rule refl)
  have "(of_char (lower_char c) :: nat) = (if up then m + 32 else m)"
  proof (cases up)
    case True
    then have "m + 32 < 256" unfolding up_def by linarith
    then have "(of_char (char_of (m + 32) :: char) :: nat) = m + 32"
      by (simp only: of_char_of mod_less)
    with True show ?thesis by (simp only: l if_True)
  next
    case False
    then show ?thesis by (simp only: l if_False m_def)
  qed
  then show ?thesis unfolding up_def m_def .
qed

lemma lower_code_32:
  "((if (65 \<le> m \<and> m \<le> 90) \<or> (192 \<le> m \<and> m \<le> 222 \<and> m \<noteq> 215) then m + 32 else m) = 32)
     = (m = (32::nat))"
proof (cases "(65 \<le> m \<and> m \<le> 90) \<or> (192 \<le> m \<and> m \<le> 222 \<and> m \<noteq> 215)")
  case True
  then have "m + 32 \<noteq> 32" and "m \<noteq> 32" by linarith+
  with True show ?thesis by (simp only: if_True)
next
  case False
  then show ?thesis by (simp only: if_False)
qed

lemma lower_char_space: "lower_char c = CHR '' '' \<longleftrightarrow> c = CHR '' ''"
proof -
  have sp: "(of_char CHR '' '' :: nat) = 32" by simp
  have "lower_char c = CHR '' '' \<longleftrightarrow> (of_char (lower_char c) :: nat) = of_char CHR '' ''"
    by (simp only: of_char_eq_iff)
  also have "\<dots> \<longleftrightarrow> (of_char c :: nat) = 32"
    unfolding lower_char_code sp by (rule lower_code_32)
  also have "\<dots> \<longleftrightarrow> (of_char c :: nat) = of_char CHR '' ''" by (simp only: sp)
  also have "\<dots> \<longleftrightarrow> c = CHR '' ''" by (simp only: of_char_eq_iff)
  finally show ?thesis .
qed

lemma lower_char_underscore: "lower_char CHR ''_'' = CHR ''_''"
proof -
  have "(of_char (lower_char CHR ''_'') :: nat) = of_char CHR ''_''"
    unfolding lower_char_code by simp
  then show ?thesis by (simp only: of_char_eq_iff)
qed

lemma lower_replace:
  "lower (replace_char CHR '' '' CHR ''_'' a) = replace_char CHR '' '' CHR ''_'' (lower a)"
  by (induction a) (simp_all add: lower_def replace_char_def lower_char_space lower_char_underscore)

text \<open>
  Claim C5, as amended. The collection name of a pipeline built without an explicit
  name, the one \<open>delete_persona\<close> deletes and the one \<open>persona_exists\<close> looks for are
  the same function of the persona name: \<open>persona_\<close> followed by the name with every
  space replaced by an underscore and then lowercased. Nothing is trimmed. Two names
  that differ only in letter case, or only in having a space where the other has an
  underscore, get the same name; two names get the same name exactly when they agree
  after these two steps.
\<close>

theorem collection_key_normalization:
  "self_collection_name (RAGPipeline_init persona_name None)
     = ''persona_'' @ lower (replace_char CHR '' '' CHR ''_'' persona_name)
   \<and> self_collection_name (RAGPipeline_init persona_name (Some ''''))
     = self_collection_name (RAGPipeline_init persona_name None)
   \<and> delete_persona_collection_name persona_name
     = self_collection_name (RAGPipeline_init persona_name None)
   \<and> persona_exists_collection_name persona_name
     = self_collection_name (RAGPipeline_init persona_name None)
   \<and> (lower a = lower b \<longrightarrow>
        self_collection_name (RAGPipeline_init a None)
          = self_collection_name (RAGPipeline_init b None))
   \<and> (replace_char CHR '' '' CHR ''_'' a = replace_char CHR '' '' CHR ''_'' b \<longrightarrow>
        self_collection_name (RAGPipeline_init a None)
          = self_collection_name (RAGPipeline_init b None))
   \<and> (self_collection_name (RAGPipeline_init a None)
          = self_collection_name (RAGPipeline_init b None)
        \<longleftrightarrow> lower (replace_char CHR '' '' CHR ''_'' a)
              = lower (replace_char CHR '' '' CHR ''_'' b))"
  by (simp add: RAGPipeline_init_def delete_persona_collection_name_def
        persona_exists_collection_name_def lower_replace)

theorem collection_key_normalization_witness:
  "self_collection_name (RAGPipeline_init ''Alice Smith'' None)
     = self_collection_name (RAGPipeline_init ''alice_smith'' None)
   \<and> self_collection_name (RAGPipeline_init ''Alice Smith'' None) = ''persona_alice_smith''"
proof -
  have l: "lower ''Alice_Smith'' = lower ''alice_smith''" by code_simp
  have r: "replace_char CHR '' '' CHR ''_'' ''Alice Smith''
           = replace_char CHR '' '' CHR ''_'' ''Alice_Smith''" by code_simp
  have v: "lower (replace_char CHR '' '' CHR ''_'' ''Alice Smith'') = ''alice_smith''"
    by code_simp
  from collection_key_normalization [of "''Alice Smith''" "''Alice_Smith''" "''alice_smith''"] l
  have "self_collection_name (RAGPipeline_init ''Alice_Smith'' None)
        = self_collection_name (RAGPipeline_init ''alice_smith'' None)" by blast
  moreover
  from collection_key_normalization [of "''Alice Smith''" "''Alice Smith''" "''Alice_Smith''"] r
  have "self_collection_name (RAGPipeline_init ''Alice Smith'' None)
        = self_collection_name (RAGPipeline_init ''Alice_Smith'' None)" by blast
  moreover
  from collection_key_normalization [of "''Alice Smith''" "''Alice Smith''" "''Alice Smith''"] v
  have "self_collection_name (RAGPipeline_init ''Alice Smith'' None) = ''persona_alice_smith''"
    by simp
  ultimately show ?thesis by simp
qed

text \<open>
  The claim as stated fails: leading and trailing spaces are not trimmed and a run
  of spaces is not collapsed, so \<open>" Alice "\<close> and \<open>"Alice"\<close>, which differ only in
  spacing, get different collection names.
\<close>

theorem collection_key_trim_counterexample:
  "self_collection_name (RAGPipeline_init ''Alice'' None) = ''persona_alice''
   \<and> self_collection_name (RAGPipeline_init '' Alice '' None) = ''persona__alice_''
   \<and> self_collection_name (RAGPipeline_init ''Alice  Smith'' None) = ''persona_alice__smith''
   \<and> self_collection_name (RAGPipeline_init ''Alice Smith'' None) = ''persona_alice_smith''"
  by code_simp







section \<open>Properties of the storage operations\<close>

lemma map_of_dict_set:
  "map_of (dict_set key v kvs) key' = (if key' = key then Some v else map_of kvs key')"
  by (induction kvs) auto

lemma database_dict_set:
  "database (s\<lparr>dbs := dict_set path d (dbs s)\<rparr>) path' = (if path' = path then d else database s path')"
  by (simp add: database_def dict_get_def map_of_dict_set)

lemma database_open:
  "map_of (dbs s) path = None \<Longrightarrow>
   database (s\<lparr>dbs := dict_set path [] (dbs s)\<rparr>) path' = database s path'"
  by (simp add: database_def dict_get_def map_of_dict_set)

lemma py_try_total:
  assumes "\<And>e s1. \<exists>x s'. h e s1 = (Inr x, s')"
  shows "\<exists>x s'. py_try m h s = (Inr x, s')"
proof (cases "m s")
  case (Pair r s1)
  show ?thesis
  proof (cases r)
    case (Inl e)
    with Pair assms [of e s1] show ?thesis by (simp add: py_try_def)
  next
    case (Inr x)
    with Pair show ?thesis by (simp add: py_try_def)
  qed
qed

text \<open>
  Claim C10. For every persona name, every backend and every state of the storage,
  \<open>delete_persona\<close> never raises: it returns a boolean. It returns \<open>False\<close> when
  opening the client, deleting the collection, testing the persona file or removing it
  raises, and \<open>True\<close> otherwise. In the reference model of the storage library, where
  deleting a collection that does not exist raises, an absent persona gives \<open>False\<close>.
\<close>

theorem delete_persona_never_raises:
  "(\<exists>b s'. delete_persona B st persona_name s = (Inr b, s'))
   \<and> delete_persona B st persona_name s =
       (case PersistentClient B (get_chroma_path st) s of
          (Inl e, s1) \<Rightarrow> (Inr False, s1)
        | (Inr client, s1) \<Rightarrow>
            (case delete_collection B (get_chroma_path st)
                    (''persona_'' @ lower (replace_char CHR '' '' CHR ''_'' persona_name)) s1 of
               (Inl e, s2) \<Rightarrow> (Inr False, s2)
             | (Inr u, s2) \<Rightarrow>
                 (case path_exists B
                         (path_join (get_persona_path st)
                            (replace_char CHR '' '' CHR ''_'' persona_name @ ''.json'')) s2 of
                    (Inl e, s3) \<Rightarrow> (Inr False, s3)
                  | (Inr ex, s3) \<Rightarrow>
                      if ex
                      then (case path_unlink B
                                   (path_join (get_persona_path st)
                                      (replace_char CHR '' '' CHR ''_'' persona_name @ ''.json''))
                                   s3 of
                              (Inl e, s4) \<Rightarrow> (Inr False, s4)
                            | (Inr u, s4) \<Rightarrow> (Inr True, s4))
                      else (Inr True, s3))))
   \<and> (map_of (database t (get_chroma_path st))
          (''persona_'' @ lower (replace_char CHR '' '' CHR ''_'' persona_name)) = None \<longrightarrow>
        fst (delete_persona (chroma distance splitter) st persona_name t) = Inr False)"
proof -
  have eq: "delete_persona B st persona_name s =
       (case PersistentClient B (get_chroma_path st) s of
          (Inl e, s1) \<Rightarrow> (Inr False, s1)
        | (Inr client, s1) \<Rightarrow>
            (case delete_collection B (get_chroma_path st)
                    (''persona_'' @ lower (replace_char CHR '' '' CHR ''_'' persona_name)) s1 of
               (Inl e, s2) \<Rightarrow> (Inr False, s2)
             | (Inr u, s2) \<Rightarrow>
                 (case path_exists B
                         (path_join (get_persona_path st)
                            (replace_char CHR '' '' CHR ''_'' persona_name @ ''.json'')) s2 of
                    (Inl e, s3) \<Rightarrow> (Inr False, s3)
                  | (Inr ex, s3) \<Rightarrow>
                      if ex
                      then (case path_unlink B
                                   (path_join (get_persona_path st)
                                      (replace_char CHR '' '' CHR ''_'' persona_name @ ''.json''))
                                   s3 of
                              (Inl e, s4) \<Rightarrow> (Inr False, s4)
                            | (Inr u, s4) \<Rightarrow> (Inr True, s4))
                      else (Inr True, s3))))" for B :: "('x, 'y) backend" and s
    by (simp add: delete_persona_def delete_persona_collection_name_def py_try_def py_bind_def
          py_return_def Let_def split: prod.splits sum.splits)
  have total: "\<exists>b s'. delete_persona B st persona_name s = (Inr b, s')"
    unfolding delete_persona_def Let_def by (rule py_try_total) (auto simp: py_return_def)
  have absent: "fst (delete_persona (chroma distance splitter) st persona_name t) = Inr False"
    if "map_of (database t (get_chroma_path st))
          (''persona_'' @ lower (replace_char CHR '' '' CHR ''_'' persona_name)) = None"
    unfolding eq using that by (simp add: chroma_def database_open)
  show ?thesis using eq [of B s] total absent by blast
qed

text \<open>Deleting a persona from the empty store returns \<open>False\<close>.\<close>

theorem delete_persona_never_raises_witness:
  "fst (delete_persona (chroma length_distance whole_text_splitter) default_settings ''Alice''
          empty_store) = Inr False"
proof -
  have h: "map_of (database empty_store (get_chroma_path default_settings))
             (''persona_'' @ lower (replace_char CHR '' '' CHR ''_'' ''Alice'')) = None"
    by (simp add: database_def dict_get_def empty_store_def)
  have "map_of (database empty_store (get_chroma_path default_settings))
             (''persona_'' @ lower (replace_char CHR '' '' CHR ''_'' ''Alice'')) = None \<longrightarrow>
        fst (delete_persona (chroma length_distance whole_text_splitter) default_settings ''Alice''
               empty_store) = Inr False"
    by (rule conjunct2 [OF conjunct2 [OF delete_persona_never_raises
         [of reference_backend default_settings "''Alice''" empty_store empty_store
             length_distance whole_text_splitter]]])
  with h show ?thesis by (rule rev_mp)
qed


section \<open>Properties of the pipeline's queries\<close>

lemma embeddings_names:
  "embeddings B (self, s) = (r, (self1, s1)) \<Longrightarrow>
   self_persona_name self1 = self_persona_name self
   \<and> self_collection_name self1 = self_collection_name self"
  by (auto simp: embeddings_def split: if_splits prod.splits sum.splits)

lemma create_vectorstore_names:
  assumes "create_vectorstore B st (self, s) = (r, (self1, s1))"
  shows "self_persona_name self1 = self_persona_name self
   \<and> self_collection_name self1 = self_collection_name self"
proof -
  obtain r0 s0 where c: "PersistentClient B (path_join (get_chroma_path st) (self_collection_name self)) s = (r0, s0)"
    by (cases "PersistentClient B (path_join (get_chroma_path st) (self_collection_name self)) s")
  show ?thesis
  proof (cases r0)
    case (Inl e)
    with assms c show ?thesis
      by (simp add: create_vectorstore_def lift_def py_bind_def Let_def)
  next
    case (Inr client)
    obtain r2 self2 s2 where e: "embeddings B (self, s0) = (r2, (self2, s2))"
      by (cases "embeddings B (self, s0)") auto
    note n2 = embeddings_names [OF e]
    show ?thesis
    proof (cases r2)
      case (Inl e2)
      with assms c Inr e n2 show ?thesis
        by (simp add: create_vectorstore_def lift_def py_bind_def Let_def)
    next
      case (Inr u)
      with assms c \<open>r0 = Inr client\<close> e n2 show ?thesis
        by (auto simp: create_vectorstore_def lift_def py_bind_def py_return_def Let_def
              split: prod.splits sum.splits)
    qed
  qed
qed

lemma vectorstore_names:
  assumes "vectorstore B st (self, s) = (r, (self1, s1))"
  shows "self_persona_name self1 = self_persona_name self
   \<and> self_collection_name self1 = self_collection_name self"
proof (cases "self_vectorstore self")
  case (Some vs)
  with assms show ?thesis by (simp add: vectorstore_def)
next
  case None
  obtain r2 self2 s2 where e: "create_vectorstore B st (self, s) = (r2, (self2, s2))"
    by (cases "create_vectorstore B st (self, s)") auto
  note n2 = create_vectorstore_names [OF e]
  from assms None e n2 show ?thesis
    by (auto simp: vectorstore_def py_bind_def split: sum.splits)
qed

lemma similarity_search_unfold:
  "similarity_search B st query k (self, s) =
       (case vectorstore B st (self, s) of
          (Inl e, ps) \<Rightarrow> (Inl e, ps)
        | (Inr vs, (self1, s1)) \<Rightarrow>
            (case similarity_search_with_score B (vs_client_path vs) (vs_collection_name vs) query
                    (case k of None \<Rightarrow> retrieval_top_k st
                     | Some k \<Rightarrow> if k = 0 then retrieval_top_k st else k) s1 of
               (Inl e, s2) \<Rightarrow> (Inl e, (self1, s2))
             | (Inr docs, s2) \<Rightarrow>
                 (Inr (map (\<lambda>(doc, score).
                              \<lparr>content = page_content doc, result_metadata = metadata doc,
                               score = score\<rparr>) docs), (self1, s2))))"
  by (simp add: similarity_search_def py_bind_def py_return_def lift_def Let_def
        split: prod.splits sum.splits)

text \<open>
  Claim C7 (amended). A storage failure during \<open>get_collection_stats\<close> is recovered
  inside the operation: for every backend and state the call returns statistics, with
  the pipeline's persona and collection names, and \<open>document_count\<close> is the
  collection's count when the store and the count succeed and zero when either
  raises. \<open>similarity_search\<close> has no handler: an exception of the store or of the
  query is returned to the caller, and only a successful query gives a list.
\<close>

theorem read_failures:
  "(\<exists>stats ps. get_collection_stats B st (self, s) = (Inr stats, ps))
   \<and> get_collection_stats B st (self, s) =
       (case vectorstore B st (self, s) of
          (Inl e, ps) \<Rightarrow>
            (Inr \<lparr>stats_persona = self_persona_name self,
                  stats_collection_name = self_collection_name self,
                  document_count = 0\<rparr>, ps)
        | (Inr vs, (self1, s1)) \<Rightarrow>
            (case collection_count B (vs_client_path vs) (vs_collection_name vs) s1 of
               (Inl e, s2) \<Rightarrow>
                 (Inr \<lparr>stats_persona = self_persona_name self,
                       stats_collection_name = self_collection_name self,
                       document_count = 0\<rparr>, (self1, s2))
             | (Inr n, s2) \<Rightarrow>
                 (Inr \<lparr>stats_persona = self_persona_name self,
                       stats_collection_name = self_collection_name self,
                       document_count = n\<rparr>, (self1, s2))))
   \<and> similarity_search B st query k (self, s) =
       (case vectorstore B st (self, s) of
          (Inl e, ps) \<Rightarrow> (Inl e, ps)
        | (Inr vs, (self1, s1)) \<Rightarrow>
            (case similarity_search_with_score B (vs_client_path vs) (vs_collection_name vs) query
                    (case k of None \<Rightarrow> retrieval_top_k st
                     | Some k \<Rightarrow> if k = 0 then retrieval_top_k st else k) s1 of
               (Inl e, s2) \<Rightarrow> (Inl e, (self1, s2))
             | (Inr docs, s2) \<Rightarrow>
                 (Inr (map (\<lambda>(doc, score).
                              \<lparr>content = page_content doc, result_metadata = metadata doc,
                               score = score\<rparr>) docs), (self1, s2))))"
proof -
  obtain r1 self1 s1 where v: "vectorstore B st (self, s) = (r1, (self1, s1))"
    by (cases "vectorstore B st (self, s)") auto
  note n = vectorstore_names [OF v]
  have total: "\<exists>stats ps. get_collection_stats B st (self, s) = (Inr stats, ps)"
    unfolding get_collection_stats_def by (rule py_try_total) (auto split: prod.splits)
  have stats: "get_collection_stats B st (self, s) =
       (case vectorstore B st (self, s) of
          (Inl e, ps) \<Rightarrow>
            (Inr \<lparr>stats_persona = self_persona_name self,
                  stats_collection_name = self_collection_name self,
                  document_count = 0\<rparr>, ps)
        | (Inr vs, (self1, s1)) \<Rightarrow>
            (case collection_count B (vs_client_path vs) (vs_collection_name vs) s1 of
               (Inl e, s2) \<Rightarrow>
                 (Inr \<lparr>stats_persona = self_persona_name self,
                       stats_collection_name = self_collection_name self,
                       document_count = 0\<rparr>, (self1, s2))
             | (Inr n, s2) \<Rightarrow>
                 (Inr \<lparr>stats_persona = self_persona_name self,
                       stats_collection_name = self_collection_name self,
                       document_count = n\<rparr>, (self1, s2))))"
    using v n
    by (simp add: get_collection_stats_def py_try_def py_bind_def lift_def
          split: prod.splits sum.splits)
  have search: "similarity_search B st query k (self, s) =
       (case vectorstore B st (self, s) of
          (Inl e, ps) \<Rightarrow> (Inl e, ps)
        | (Inr vs, (self1, s1)) \<Rightarrow>
            (case similarity_search_with_score B (vs_client_path vs) (vs_collection_name vs) query
                    (case k of None \<Rightarrow> retrieval_top_k st
                     | Some k \<Rightarrow> if k = 0 then retrieval_top_k st else k) s1 of
               (Inl e, s2) \<Rightarrow> (Inl e, (self1, s2))
             | (Inr docs, s2) \<Rightarrow>
                 (Inr (map (\<lambda>(doc, score).
                              \<lparr>content = page_content doc, result_metadata = metadata doc,
                               score = score\<rparr>) docs), (self1, s2))))"
    by (simp add: similarity_search_def py_bind_def py_return_def lift_def Let_def
          split: prod.splits sum.splits)
  from total stats search show ?thesis by (intro conjI)
qed

text \<open>
  The claim as stated fails for \<open>similarity_search\<close>: on a backend whose query raises
  a storage error, the search returns that error and not an empty list.
\<close>

theorem search_failure_counterexample:
  "fst (similarity_search (failing_search reference_backend) default_settings ''hello'' None
          (RAGPipeline_init ''Alice'' None, empty_store))
     = Inl (StorageError ''database is locked'')"
  by code_simp

lemma chroma_vectorstore_fresh:
  assumes "self_vectorstore self = None"
  shows "\<exists>self1 s1.
           vectorstore (chroma distance splitter) st (self, s) =
             (Inr \<lparr>vs_client_path = path_join (get_chroma_path st) (self_collection_name self),
                   vs_collection_name = self_collection_name self\<rparr>, (self1, s1))
           \<and> map_of (database s1 (path_join (get_chroma_path st) (self_collection_name self)))
                 (self_collection_name self)
               = Some (dict_get (database s (path_join (get_chroma_path st)
                                    (self_collection_name self)))
                         (self_collection_name self) [])"
  using assms
  by (simp add: vectorstore_def create_vectorstore_def embeddings_def lift_def py_bind_def
        py_return_def chroma_def Let_def database_def map_of_dict_set dict_get_def
      split: option.splits)

lemma join_Cons_prefix: "\<exists>rest. join sep (x # xs) = x @ rest"
  by (cases xs) simp_all

lemma sorted_scores:
  fixes docs :: "(Document \<times> 'c::linorder) list"
  shows "sorted (map score (map (\<lambda>(doc, score).
                              \<lparr>content = page_content doc, result_metadata = metadata doc,
                               score = score\<rparr>) (take n (sort_key snd docs))))"
proof -
  have "score \<circ> (\<lambda>(doc, score).
                    \<lparr>content = page_content doc, result_metadata = metadata doc,
                     score = score\<rparr>) = (snd :: Document \<times> 'c \<Rightarrow> 'c)"
    by (rule ext) (simp add: case_prod_beta)
  moreover have "sorted (map snd (take n (sort_key snd docs)))"
    by (simp add: take_map [symmetric] sorted_wrt_take)
  ultimately show ?thesis by (simp only: map_map)
qed

lemma chroma_query_sorted:
  "similarity_search_with_score (chroma distance splitter) p n q k s = (Inr docs, s') \<Longrightarrow>
   \<exists>m xs. docs = take m (sort_key snd xs)"
  by (auto simp: chroma_def split: if_splits option.splits)

lemma chroma_search_sorted:
  fixes distance :: "string \<Rightarrow> string \<Rightarrow> 'c::linorder"
  assumes "fst (similarity_search (chroma distance splitter) st query k (self, t)) = Inr found"
  shows "sorted (map score found)"
proof -
  obtain r1 self1 s1 where
    v: "vectorstore (chroma distance splitter) st (self, t) = (r1, (self1, s1))"
    by (cases "vectorstore (chroma distance splitter) st (self, t)") auto
  show ?thesis
  proof (cases r1)
    case (Inl e)
    with assms v show ?thesis by (simp add: similarity_search_unfold)
  next
    case (Inr vs)
    obtain r2 s2 where
      q: "similarity_search_with_score (chroma distance splitter) (vs_client_path vs)
            (vs_collection_name vs) query
            (case k of None \<Rightarrow> retrieval_top_k st
             | Some k \<Rightarrow> if k = 0 then retrieval_top_k st else k) s1 = (r2, s2)"
      by (cases "similarity_search_with_score (chroma distance splitter) (vs_client_path vs)
            (vs_collection_name vs) query
            (case k of None \<Rightarrow> retrieval_top_k st
             | Some k \<Rightarrow> if k = 0 then retrieval_top_k st else k) s1")
    show ?thesis
    proof (cases r2)
      case (Inl e)
      with assms v Inr q show ?thesis by (simp add: similarity_search_unfold)
    next
      case r2: (Inr docs)
      from q r2 obtain m xs where d: "docs = take m (sort_key snd xs)"
        using chroma_query_sorted by blast
      from assms v Inr q r2 have "found = map (\<lambda>(doc, score).
                              \<lparr>content = page_content doc, result_metadata = metadata doc,
                               score = score\<rparr>) docs"
        by (simp add: similarity_search_unfold)
      with d show ?thesis by (simp only: sorted_scores)
    qed
  qed
qed

lemma chroma_search_empty:
  fixes distance :: "string \<Rightarrow> string \<Rightarrow> 'c::linorder"
  assumes "self_vectorstore self = None"
    and "dict_get (database s (path_join (get_chroma_path st) (self_collection_name self)))
           (self_collection_name self) [] = []"
    and "0 < (case k of None \<Rightarrow> retrieval_top_k st
              | Some k \<Rightarrow> if k = 0 then retrieval_top_k st else k)"
  shows "fst (similarity_search (chroma distance splitter) st query k (self, s)) = Inr []"
proof -
  from chroma_vectorstore_fresh [OF assms(1), of distance splitter st s] assms(2)
  obtain self1 s1 where
    v: "vectorstore (chroma distance splitter) st (self, s) =
             (Inr \<lparr>vs_client_path = path_join (get_chroma_path st) (self_collection_name self),
                   vs_collection_name = self_collection_name self\<rparr>, (self1, s1))"
    and m: "map_of (database s1 (path_join (get_chroma_path st) (self_collection_name self)))
                 (self_collection_name self) = Some []"
    by auto
  have "similarity_search_with_score (chroma distance splitter)
          (path_join (get_chroma_path st) (self_collection_name self))
          (self_collection_name self) query
          (case k of None \<Rightarrow> retrieval_top_k st
           | Some k \<Rightarrow> if k = 0 then retrieval_top_k st else k) s1 = (Inr [], s1)"
    using m assms(3) by (simp add: chroma_def)
  with v show ?thesis by (simp add: similarity_search_unfold)
qed

text \<open>
  Claim C8. For every backend, \<open>get_relevant_context\<close> returns the exception of the
  search if it raises; otherwise it returns the fixed string
  \<open>No relevant context found.\<close> when the search yields no result, and the results in
  the order of the search, each as \<open>[Source: s]\<close>, a newline and the content, with
  \<open>s\<close> the \<open>source\<close> metadata (or \<open>unknown\<close>), joined by a blank line, \<open>---\<close> and a
  blank line. A rendering of one result or more is never the fixed string. In the
  reference model of the storage library, a fresh pipeline whose collection is absent
  or exists and is empty gets the fixed string for a positive \<open>k\<close>, and the results of
  a search are in ascending order of distance: best match first.
\<close>

theorem get_relevant_context_sentinel:
  fixes distance :: "string \<Rightarrow> string \<Rightarrow> 'c::linorder"
    and rs :: "'d search_result list"
  shows
  "get_relevant_context B st query k ps =
     (case similarity_search B st query k ps of
        (Inl e, ps') \<Rightarrow> (Inl e, ps')
      | (Inr results, ps') \<Rightarrow>
          (Inr (if results = [] then ''No relevant context found.''
                else join ''\<newline>\<newline>---\<newline>\<newline>''
                       (map (\<lambda>r. ''[Source: ''
                                 @ format_value
                                     (dict_get (result_metadata r) ''source'' (MStr ''unknown''))
                                 @ '']\<newline>'' @ content r)
                          results)), ps'))
   \<and> (rs \<noteq> [] \<longrightarrow>
        join ''\<newline>\<newline>---\<newline>\<newline>''
          (map (\<lambda>r. ''[Source: ''
                    @ format_value (dict_get (result_metadata r) ''source'' (MStr ''unknown''))
                    @ '']\<newline>'' @ content r)
             rs) \<noteq> ''No relevant context found.'')
   \<and> (self_vectorstore self = None
        \<and> dict_get (database s (path_join (get_chroma_path st) (self_collection_name self)))
             (self_collection_name self) [] = []
        \<and> 0 < (case k of None \<Rightarrow> retrieval_top_k st
                | Some k \<Rightarrow> if k = 0 then retrieval_top_k st else k) \<longrightarrow>
        fst (get_relevant_context (chroma distance splitter) st query k (self, s))
          = Inr ''No relevant context found.'')
   \<and> (fst (similarity_search (chroma distance splitter) st query k (self', t)) = Inr found \<longrightarrow>
        sorted (map score found))"
proof -
  have unfold: "get_relevant_context B st query k ps =
     (case similarity_search B st query k ps of
        (Inl e, ps') \<Rightarrow> (Inl e, ps')
      | (Inr results, ps') \<Rightarrow>
          (Inr (if results = [] then ''No relevant context found.''
                else join ''\<newline>\<newline>---\<newline>\<newline>''
                       (map (\<lambda>r. ''[Source: ''
                                 @ format_value
                                     (dict_get (result_metadata r) ''source'' (MStr ''unknown''))
                                 @ '']\<newline>'' @ content r)
                          results)), ps'))" for B :: "('x, 'y) backend" and ps
    by (simp add: get_relevant_context_def py_bind_def py_return_def Let_def
          split: prod.splits sum.splits)
  have distinct: "join ''\<newline>\<newline>---\<newline>\<newline>''
          (map (\<lambda>r. ''[Source: ''
                    @ format_value (dict_get (result_metadata r) ''source'' (MStr ''unknown''))
                    @ '']\<newline>'' @ content r)
             rs) \<noteq> ''No relevant context found.''" if "rs \<noteq> []"
  proof -
    define f :: "'d search_result \<Rightarrow> string" where
      "f = (\<lambda>r. ''[Source: ''
                    @ format_value (dict_get (result_metadata r) ''source'' (MStr ''unknown''))
                    @ '']\<newline>'' @ content r)"
    from that obtain r rest where rs: "rs = r # rest" by (cases rs) simp_all
    obtain tl where "join ''\<newline>\<newline>---\<newline>\<newline>'' (f r # map f rest) = f r @ tl"
      using join_Cons_prefix [of "''\<newline>\<newline>---\<newline>\<newline>''" "f r" "map f rest"] by blast
    then have "join ''\<newline>\<newline>---\<newline>\<newline>'' (map f rs) \<noteq> ''No relevant context found.''"
      by (simp add: rs f_def)
    then show ?thesis unfolding f_def .
  qed
  have empty: "fst (get_relevant_context (chroma distance splitter) st query k (self, s))
          = Inr ''No relevant context found.''"
    if "self_vectorstore self = None"
      and "dict_get (database s (path_join (get_chroma_path st) (self_collection_name self)))
             (self_collection_name self) [] = []"
      and "0 < (case k of None \<Rightarrow> retrieval_top_k st
                | Some k \<Rightarrow> if k = 0 then retrieval_top_k st else k)"
  proof -
    obtain r ps' where
      e: "similarity_search (chroma distance splitter) st query k (self, s) = (r, ps')"
      by (cases "similarity_search (chroma distance splitter) st query k (self, s)")
    with chroma_search_empty [OF that, of distance splitter query] have "r = Inr []" by simp
    with e show ?thesis by (simp add: unfold)
  qed
  show ?thesis
    apply (intro conjI impI)
       apply (rule unfold)
      apply (erule distinct)
     apply (elim conjE)
     apply (erule (2) empty)
    apply (erule chroma_search_sorted)
    done
qed

text \<open>
  With no collection the context is the fixed string; after adding two texts the
  nearer one is rendered first.
\<close>

theorem get_relevant_context_sentinel_witness:
  "fst (get_relevant_context (chroma length_distance whole_text_splitter) default_settings ''hey''
          None (RAGPipeline_init ''Alice'' None, empty_store))
     = Inr ''No relevant context found.''
   \<and> fst (get_relevant_context (chroma length_distance whole_text_splitter) default_settings
            ''hey'' None
            (snd (add_text (chroma length_distance whole_text_splitter) default_settings
                    ''hi'' ''b.txt''
                    (snd (add_text (chroma length_distance whole_text_splitter) default_settings
                            ''the quick brown fox'' ''a.txt''
                            (RAGPipeline_init ''Alice'' None, empty_store))))))
     = Inr ''[Source: b.txt]\<newline>hi\<newline>\<newline>---\<newline>\<newline>[Source: a.txt]\<newline>the quick brown fox''
   \<and> sorted (map score
        [\<lparr>content = ''hi'',
          result_metadata = [(''source'', MStr ''b.txt''), (''chunk_id'', MInt 0),
                             (''persona'', MStr ''Alice'')],
          score = 1::nat\<rparr>,
         \<lparr>content = ''the quick brown fox'',
          result_metadata = [(''source'', MStr ''a.txt''), (''chunk_id'', MInt 0),
                             (''persona'', MStr ''Alice'')],
          score = 16\<rparr>])
   \<and> join ''\<newline>\<newline>---\<newline>\<newline>''
        (map (\<lambda>r. ''[Source: ''
                  @ format_value (dict_get (result_metadata r) ''source'' (MStr ''unknown''))
                  @ '']\<newline>'' @ content r)
           [\<lparr>content = ''hi'',
             result_metadata = [(''source'', MStr ''b.txt''), (''chunk_id'', MInt 0),
                                (''persona'', MStr ''Alice'')],
             score = 1::nat\<rparr>,
            \<lparr>content = ''the quick brown fox'',
             result_metadata = [(''source'', MStr ''a.txt''), (''chunk_id'', MInt 0),
                                (''persona'', MStr ''Alice'')],
             score = 16\<rparr>])
       \<noteq> ''No relevant context found.''"
proof -
  let ?C = "chroma length_distance whole_text_splitter"
  let ?p = "(RAGPipeline_init ''Alice'' None, empty_store)"
  let ?q = "snd (add_text ?C default_settings ''hi'' ''b.txt''
                    (snd (add_text ?C default_settings ''the quick brown fox'' ''a.txt'' ?p)))"
  let ?found = "[\<lparr>content = ''hi'',
          result_metadata = [(''source'', MStr ''b.txt''), (''chunk_id'', MInt 0),
                             (''persona'', MStr ''Alice'')],
          score = 1::nat\<rparr>,
         \<lparr>content = ''the quick brown fox'',
          result_metadata = [(''source'', MStr ''a.txt''), (''chunk_id'', MInt 0),
                             (''persona'', MStr ''Alice'')],
          score = 16\<rparr>]"
  note t = get_relevant_context_sentinel
             [where B = ?C and st = default_settings and query = "''hey''" and k = None
                and ps = ?q and rs = ?found and self = "RAGPipeline_init ''Alice'' None"
                and s = empty_store and distance = length_distance
                and splitter = whole_text_splitter and self' = "fst ?q" and t = "snd ?q"
                and found = ?found]
  have h: "self_vectorstore (RAGPipeline_init ''Alice'' None) = None
        \<and> dict_get (database empty_store
                      (path_join (get_chroma_path default_settings)
                         (self_collection_name (RAGPipeline_init ''Alice'' None))))
             (self_collection_name (RAGPipeline_init ''Alice'' None)) [] = []
        \<and> 0 < (case None of None \<Rightarrow> retrieval_top_k default_settings
                | Some k \<Rightarrow> if k = 0 then retrieval_top_k default_settings else k)"
    by (simp add: RAGPipeline_init_def database_def dict_get_def empty_store_def
          default_settings_def)
  have a: "fst (get_relevant_context ?C default_settings ''hey'' None ?p)
             = Inr ''No relevant context found.''"
    using t h by blast
  have b: "fst (get_relevant_context ?C default_settings ''hey'' None ?q)
     = Inr ''[Source: b.txt]\<newline>hi\<newline>\<newline>---\<newline>\<newline>[Source: a.txt]\<newline>the quick brown fox''"
    by code_simp
  have h4: "fst (similarity_search ?C default_settings ''hey'' None (fst ?q, snd ?q))
              = Inr ?found"
    by code_simp
  have c: "sorted (map score ?found)"
    using t h4 by blast
  have h2: "?found \<noteq> []" by simp
  have d: "join ''\<newline>\<newline>---\<newline>\<newline>''
        (map (\<lambda>r. ''[Source: ''
                  @ format_value (dict_get (result_metadata r) ''source'' (MStr ''unknown''))
                  @ '']\<newline>'' @ content r) ?found)
       \<noteq> ''No relevant context found.''"
    using t h2 by blast
  from a b c d show ?thesis by (intro conjI)
qed

section \<open>Properties of the registry\<close>

text \<open>
  Claim C6. The pipeline keeps a persona's collection in the database at
  \<open>chroma_path / collection_name\<close>, and \<open>persona_exists\<close> lists the collections of the
  database at \<open>chroma_path\<close>. After one chunk is added for \<open>Alice\<close> to the empty store,
  the collection \<open>persona_alice\<close> is in the database at
  \<open>data/chroma_db/persona_alice\<close>, the database at \<open>data/chroma_db\<close> has no
  collection, and \<open>persona_exists\<close> returns \<open>False\<close>.
\<close>

theorem persona_exists_after_add:
  "fst (add_text reference_backend default_settings ''hello world'' ''manual''
          (RAGPipeline_init ''Alice'' None, empty_store)) = Inr 1
   \<and> map fst (database
                 (snd (snd (add_text reference_backend default_settings ''hello world''
                              ''manual'' (RAGPipeline_init ''Alice'' None, empty_store))))
                 ''data/chroma_db/persona_alice'') = [''persona_alice'']
   \<and> database
         (snd (snd (add_text reference_backend default_settings ''hello world''
                      ''manual'' (RAGPipeline_init ''Alice'' None, empty_store))))
         ''data/chroma_db'' = []
   \<and> fst (persona_exists reference_backend default_settings ''Alice''
            (snd (snd (add_text reference_backend default_settings ''hello world''
                         ''manual'' (RAGPipeline_init ''Alice'' None, empty_store)))))
       = Inr False"
  by code_simp

end
